theory Spec2Isabelle
  imports Complex_Main "HOL-Library.Sublist"
begin

section \<open>Data model of WorkflowDoctor.tsx\<close>

text \<open>
  The interfaces \<^verbatim>\<open>Node\<close> and \<^verbatim>\<open>Workflow\<close> of the component. Strings are
  lists of 8-bit characters (code units below 256); the layout coordinates are numbers that
  scoring never reads. The field \<^verbatim>\<open>name\<close> of \<^verbatim>\<open>Workflow\<close> is called
  \<open>workflow_name\<close>, because \<open>name\<close> is already the field of \<^verbatim>\<open>Node\<close>.
  \<^verbatim>\<open>connections: Record<string, unknown>\<close> is a map from strings to values of
  an arbitrary type \<open>'c\<close>.
\<close>

record Node =
  name :: string
  type :: string
  position :: "real \<times> real"

record 'c Workflow =
  workflow_name :: string
  nodes :: "Node list"
  connections :: "string \<rightharpoonup> 'c"

section \<open>String operations used by the score\<close>

text \<open>
  \<^verbatim>\<open>String.prototype.toLowerCase\<close> on code units below 256: the letters A to Z
  and the Latin-1 capitals U+00C0 to U+00DE (the multiplication sign U+00D7 apart) move up
  by 32, every other code unit stays.
\<close>

definition toLowerChar :: "char \<Rightarrow> char" where
  "toLowerChar c =
     (let k = (of_char c :: nat) in
      if (65 \<le> k \<and> k \<le> 90) \<or> (192 \<le> k \<and> k \<le> 222 \<and> k \<noteq> 215)
      then char_of (k + 32) else c)"

definition toLowerCase :: "string \<Rightarrow> string" where
  "toLowerCase s = map toLowerChar s"

text \<open>\<^verbatim>\<open>s.includes(t)\<close>: \<open>t\<close> occurs in \<open>s\<close> as a contiguous run, at any position
  (\<open>includes\<close> is a keyword of Isabelle, hence the suffix).\<close>

fun includes_str :: "string \<Rightarrow> string \<Rightarrow> bool" where
  "includes_str [] t = (t = [])"
| "includes_str (c # cs) t = (prefix t (c # cs) \<or> includes_str cs t)"

text \<open>The class \<^verbatim>\<open>\d\<close> of a regular expression without the unicode flag: 0 to 9.\<close>

definition isDigit :: "char \<Rightarrow> bool" where
  "isDigit c = (48 \<le> (of_char c :: nat) \<and> (of_char c :: nat) \<le> 57)"

text \<open>
  \<^verbatim>\<open>/Node \d+/\<close> tried at the start of \<open>s\<close>: the five characters
  \<^verbatim>\<open>Node\<close> and a space, then at least one digit (the greedy \<^verbatim>\<open>\d+\<close>
  succeeds as soon as one digit is there).
\<close>

definition matchHere :: "string \<Rightarrow> bool" where
  "matchHere s =
     (prefix ''Node '' s \<and> (case drop 5 s of [] \<Rightarrow> False | d # _ \<Rightarrow> isDigit d))"

text \<open>
  \<^verbatim>\<open>s.match(/Node \d+/)\<close> read as a condition: the expression has no anchor, so
  the match is tried at every position of \<open>s\<close>; the result is an array (truthy) when one
  attempt succeeds and \<^verbatim>\<open>null\<close> otherwise.
\<close>

fun matchNodeDigits :: "string \<Rightarrow> bool" where
  "matchNodeDigits [] = False"
| "matchNodeDigits (c # cs) = (matchHere (c # cs) \<or> matchNodeDigits cs)"

section \<open>The health score of handleAnalyze\<close>

text \<open>The callbacks passed to \<^verbatim>\<open>some\<close> and \<^verbatim>\<open>filter\<close>, in source order.\<close>

definition isErrorNode :: "Node \<Rightarrow> bool" where
  "isErrorNode n = (includes_str (toLowerCase (type n)) ''error'' \<or> includes_str (type n) ''catch'')"

definition isTrigger :: "Node \<Rightarrow> bool" where
  "isTrigger n =
     (includes_str (toLowerCase (type n)) ''trigger'' \<or> includes_str (toLowerCase (type n)) ''webhook'')"

definition isHeavy :: "Node \<Rightarrow> bool" where
  "isHeavy n = (includes_str (type n) ''Code'' \<or> includes_str (type n) ''Function'')"

definition isDefaultNamed :: "Node \<Rightarrow> bool" where
  "isDefaultNamed n = matchNodeDigits (name n)"

text \<open>
  The body of \<^verbatim>\<open>handleAnalyze\<close> from \<^verbatim>\<open>let score = 100\<close> to the last
  deduction: the variable \<^verbatim>\<open>score\<close> is threaded through the conditional
  statements one after the other. The numbers are small integers, which JavaScript's
  doubles represent exactly.
\<close>

definition calcScore :: "Node list \<Rightarrow> int" where
  "calcScore ns =
     (let score = 100;
          hasErrorNodes = list_ex isErrorNode ns;
          score = (if \<not> hasErrorNodes \<and> length ns > 5 then score - 20 else score);
          score = (if length ns > 10 then score - 5 else score);
          score = (if length ns > 20 then score - 10 else score);
          triggers = filter isTrigger ns;
          score = (if length triggers = 0 then score - 10 else score);
          score = (if length triggers > 2 then score - 5 else score);
          heavyNodes = filter isHeavy ns;
          score = (if length heavyNodes > 3 then score - 5 else score);
          defaultNamed = filter isDefaultNamed ns;
          score = (if length defaultNamed > 0 then score - int (length defaultNamed * 2) else score)
      in score)"

text \<open>The argument of \<^verbatim>\<open>setHealthScore\<close>: the score clamped once, at the end.\<close>

definition finalScore :: "Node list \<Rightarrow> int" where
  "finalScore ns = max 0 (min 100 (calcScore ns))"

text \<open>
  The deductions that the conditional statements of the source perform, in source order,
  each as a signed delta under the name of its rule.
\<close>

datatype Rule =
  MissingErrorHandling | ModerateSize | LargeSize | NoTrigger | TooManyTriggers
  | ExcessCustomCode | DefaultNaming

definition deductions :: "Node list \<Rightarrow> (Rule \<times> int) list" where
  "deductions ns =
     (if \<not> list_ex isErrorNode ns \<and> length ns > 5 then [(MissingErrorHandling, - 20)] else [])
     @ (if length ns > 10 then [(ModerateSize, - 5)] else [])
     @ (if length ns > 20 then [(LargeSize, - 10)] else [])
     @ (if length (filter isTrigger ns) = 0 then [(NoTrigger, - 10)] else [])
     @ (if length (filter isTrigger ns) > 2 then [(TooManyTriggers, - 5)] else [])
     @ (if length (filter isHeavy ns) > 3 then [(ExcessCustomCode, - 5)] else [])
     @ (if length (filter isDefaultNamed ns) > 0
        then [(DefaultNaming, - int (length (filter isDefaultNamed ns) * 2))] else [])"

definition deltas :: "Node list \<Rightarrow> int list" where
  "deltas ns = map snd (deductions ns)"

section \<open>The component state and handleAnalyze\<close>

text \<open>
  The five \<^verbatim>\<open>useState\<close> cells of the component. The reply of the external
  text-generation service is a parameter of the model: \<^verbatim>\<open>res.text\<close> and the
  optional \<^verbatim>\<open>res.model\<close> (\<open>text\<close> is a keyword of Isabelle, so both
  fields carry the prefix \<open>res_\<close>).
\<close>

datatype Tab = Visual | Json

record AIResponse =
  res_text :: string
  res_model :: "string option"

record Analysis =
  analysis_text :: string
  analysis_model :: string

record 'c State =
  activeTab :: Tab
  workflow :: "'c Workflow option"
  loading :: bool
  analysis :: "Analysis option"
  healthScore :: int

text \<open>\<^verbatim>\<open>res.model || "AI Model"\<close>: an absent or empty label is falsy.\<close>

definition modelLabel :: "AIResponse \<Rightarrow> string" where
  "modelLabel res = (case res_model res of None \<Rightarrow> ''AI Model'' | Some m \<Rightarrow> if m = [] then ''AI Model'' else m)"

text \<open>
  \<^verbatim>\<open>handleAnalyze\<close> with the setter calls in source order, for a reply \<open>res\<close> of the
  service: nothing happens without a workflow; otherwise the analysis text, the clamped
  score and the loading flag are stored. The prompt sent to the service lists the name and
  the type of every node; what comes back is \<open>res\<close>, whatever the prompt was.
\<close>

definition handleAnalyze :: "AIResponse \<Rightarrow> 'c State \<Rightarrow> 'c State" where
  "handleAnalyze res st =
     (case workflow st of
        None \<Rightarrow> st
      | Some w \<Rightarrow>
          (let st = st\<lparr>loading := True\<rparr>;
               st = st\<lparr>analysis := None\<rparr>;
               st = st\<lparr>analysis := Some \<lparr>analysis_text = res_text res, analysis_model = modelLabel res\<rparr>\<rparr>;
               st = st\<lparr>healthScore := finalScore (nodes w)\<rparr>;
               st = st\<lparr>loading := False\<rparr>
           in st))"

section \<open>Nodes as they arrive from JSON\<close>

text \<open>
  The workflow is the result of \<^verbatim>\<open>res.json()\<close>, so at run time a property that
  the interface declares may be absent. Reading it gives \<^verbatim>\<open>undefined\<close>, and a
  method call on \<^verbatim>\<open>undefined\<close> throws a \<^verbatim>\<open>TypeError\<close>.
\<close>

datatype error = TypeError

record JsNode =
  js_name :: "string option"
  js_type :: "string option"
  js_position :: "(real \<times> real) option"

definition toJs :: "Node \<Rightarrow> JsNode" where
  "toJs n = \<lparr>js_name = Some (name n), js_type = Some (type n), js_position = Some (position n)\<rparr>"

text \<open>
  \<^verbatim>\<open>Array.prototype.some\<close> and \<^verbatim>\<open>filter\<close> with a callback that may throw:
  \<^verbatim>\<open>some\<close> stops at the first element that satisfies the callback, both stop at the
  first exception.
\<close>

fun some_js :: "(JsNode \<Rightarrow> error + bool) \<Rightarrow> JsNode list \<Rightarrow> error + bool" where
  "some_js p [] = Inr False"
| "some_js p (n # ns) =
     (case p n of Inl e \<Rightarrow> Inl e | Inr b \<Rightarrow> if b then Inr True else some_js p ns)"

fun filter_js :: "(JsNode \<Rightarrow> error + bool) \<Rightarrow> JsNode list \<Rightarrow> error + JsNode list" where
  "filter_js p [] = Inr []"
| "filter_js p (n # ns) =
     (case p n of
        Inl e \<Rightarrow> Inl e
      | Inr b \<Rightarrow>
          (case filter_js p ns of Inl e \<Rightarrow> Inl e | Inr r \<Rightarrow> Inr (if b then n # r else r)))"

definition isErrorNodeJs :: "JsNode \<Rightarrow> error + bool" where
  "isErrorNodeJs n =
     (case js_type n of
        None \<Rightarrow> Inl TypeError
      | Some t \<Rightarrow> Inr (includes_str (toLowerCase t) ''error'' \<or> includes_str t ''catch''))"

definition isTriggerJs :: "JsNode \<Rightarrow> error + bool" where
  "isTriggerJs n =
     (case js_type n of
        None \<Rightarrow> Inl TypeError
      | Some t \<Rightarrow> Inr (includes_str (toLowerCase t) ''trigger'' \<or> includes_str (toLowerCase t) ''webhook''))"

definition isHeavyJs :: "JsNode \<Rightarrow> error + bool" where
  "isHeavyJs n =
     (case js_type n of
        None \<Rightarrow> Inl TypeError
      | Some t \<Rightarrow> Inr (includes_str t ''Code'' \<or> includes_str t ''Function''))"

definition isDefaultNamedJs :: "JsNode \<Rightarrow> error + bool" where
  "isDefaultNamedJs n =
     (case js_name n of None \<Rightarrow> Inl TypeError | Some s \<Rightarrow> Inr (matchNodeDigits s))"

text \<open>Sequencing of statements that may throw: an exception ends the run.\<close>

definition thenE :: "error + 'a \<Rightarrow> ('a \<Rightarrow> error + 'b) \<Rightarrow> error + 'b" where
  "thenE r f = (case r of Inl e \<Rightarrow> Inl e | Inr v \<Rightarrow> f v)"

text \<open>The same statements as \<open>calcScore\<close> and \<open>finalScore\<close>, over such nodes.\<close>

definition calcScoreJs :: "JsNode list \<Rightarrow> error + int" where
  "calcScoreJs ns =
     (let score = 100 in
      thenE (some_js isErrorNodeJs ns) (\<lambda>hasErrorNodes.
        (let score = (if \<not> hasErrorNodes \<and> length ns > 5 then score - 20 else score);
             score = (if length ns > 10 then score - 5 else score);
             score = (if length ns > 20 then score - 10 else score) in
         thenE (filter_js isTriggerJs ns) (\<lambda>triggers.
           (let score = (if length triggers = 0 then score - 10 else score);
                score = (if length triggers > 2 then score - 5 else score) in
            thenE (filter_js isHeavyJs ns) (\<lambda>heavyNodes.
              (let score = (if length heavyNodes > 3 then score - 5 else score) in
               thenE (filter_js isDefaultNamedJs ns) (\<lambda>defaultNamed.
                 (let score = (if length defaultNamed > 0
                               then score - int (length defaultNamed * 2) else score)
                  in Inr score)))))))))"

definition finalScoreJs :: "JsNode list \<Rightarrow> error + int" where
  "finalScoreJs ns = thenE (calcScoreJs ns) (\<lambda>score. Inr (max 0 (min 100 score)))"

section \<open>Literal inputs for the examples\<close>

definition mkNode :: "string \<Rightarrow> string \<Rightarrow> Node" where
  "mkNode nm ty = \<lparr>name = nm, type = ty, position = (0, 0)\<rparr>"

definition startNode :: Node where
  "startNode = mkNode ''Start'' ''n8n-nodes-base.webhook''"

definition stepNode :: Node where
  "stepNode = mkNode ''Step'' ''n8n-nodes-base.set''"

definition scriptNode :: Node where
  "scriptNode = mkNode ''Script'' ''n8n-nodes-base.Code''"

definition numberedNode :: Node where
  "numberedNode = mkNode ''Node 1'' ''n8n-nodes-base.set''"

definition numberedHook :: Node where
  "numberedHook = mkNode ''Node 2'' ''n8n-nodes-base.webhook''"

definition hookNode :: Node where
  "hookNode = mkNode ''Hook'' ''custom.webhookCode''"

text \<open>The values the \<^verbatim>\<open>useState\<close> calls start from, and a reply of the service.\<close>

definition initialState :: "nat State" where
  "initialState =
     \<lparr>activeTab = Visual, workflow = None, loading = False, analysis = None, healthScore = 0\<rparr>"

definition sampleReply :: AIResponse where
  "sampleReply = \<lparr>res_text = ''- Add error handling node.'', res_model = None\<rparr>"

definition emptyWorkflow :: "nat Workflow" where
  "emptyWorkflow = \<lparr>workflow_name = ''Empty'', nodes = [], connections = Map.empty\<rparr>"

definition hookWorkflow :: "nat Workflow" where
  "hookWorkflow =
     \<lparr>workflow_name = ''Hooks'',
      nodes = replicate 4 hookNode,
      connections = Map.empty\<rparr>"

definition sixNodes :: "string \<Rightarrow> Node list" where
  "sixNodes ty =
     [startNode, mkNode ''Guard'' ty, stepNode, stepNode, stepNode, stepNode]"

text \<open>Two exports of one node list: other label, other layout, other wiring.\<close>

definition plainExport :: "nat Workflow" where
  "plainExport =
     \<lparr>workflow_name = ''Draft'',
      nodes = [\<lparr>name = ''Start'', type = ''n8n-nodes-base.webhook'', position = (0, 0)\<rparr>],
      connections = Map.empty\<rparr>"

definition wiredExport :: "nat Workflow" where
  "wiredExport =
     \<lparr>workflow_name = ''Final'',
      nodes = [\<lparr>name = ''Start'', type = ''n8n-nodes-base.webhook'', position = (250, 300)\<rparr>],
      connections = [''Start'' \<mapsto> 1]\<rparr>"

text \<open>A node that arrived without its \<^verbatim>\<open>type\<close>, and one without its \<^verbatim>\<open>name\<close>.\<close>

definition untypedNode :: JsNode where
  "untypedNode = \<lparr>js_name = Some ''Orphan'', js_type = None, js_position = Some (0, 0)\<rparr>"

definition unnamedNode :: JsNode where
  "unnamedNode =
     \<lparr>js_name = None, js_type = Some ''n8n-nodes-base.set'', js_position = Some (0, 0)\<rparr>"

section \<open>Facts about the string operations\<close>

lemma includes_str_iff: "includes_str s t \<longleftrightarrow> (\<exists>p q. s = p @ t @ q)"
proof (induction s)
  case Nil
  then show ?case by auto
next
  case (Cons c cs)
  show ?case
  proof
    assume "includes_str (c # cs) t"
    then consider "prefix t (c # cs)" | "includes_str cs t" by auto
    then show "\<exists>p q. c # cs = p @ t @ q"
    proof cases
      case 1
      then obtain q where "c # cs = t @ q" by (auto simp: prefix_def)
      then have "c # cs = [] @ t @ q" by simp
      then show ?thesis by blast
    next
      case 2
      with Cons.IH obtain p q where "cs = p @ t @ q" by blast
      then have "c # cs = (c # p) @ t @ q" by simp
      then show ?thesis by blast
    qed
  next
    assume "\<exists>p q. c # cs = p @ t @ q"
    then obtain p q where pq: "c # cs = p @ t @ q" by blast
    show "includes_str (c # cs) t"
    proof (cases p)
      case Nil
      with pq have "prefix t (c # cs)" by (simp add: prefix_def)
      then show ?thesis by simp
    next
      case (Cons a p')
      with pq have "cs = p' @ t @ q" by simp
      with Cons.IH have "includes_str cs t" by blast
      then show ?thesis by simp
    qed
  qed
qed

lemma matchHere_iff: "matchHere s \<longleftrightarrow> (\<exists>d q. s = ''Node '' @ d # q \<and> isDigit d)"
proof
  assume m: "matchHere s"
  then obtain r where r: "s = ''Node '' @ r" by (auto simp: matchHere_def prefix_def)
  with m obtain d q where "r = d # q" "isDigit d"
    by (auto simp: matchHere_def split: list.splits)
  with r show "\<exists>d q. s = ''Node '' @ d # q \<and> isDigit d" by blast
next
  assume "\<exists>d q. s = ''Node '' @ d # q \<and> isDigit d"
  then show "matchHere s" by (auto simp: matchHere_def)
qed

lemma matchNodeDigits_iff:
  "matchNodeDigits s \<longleftrightarrow> (\<exists>p d q. s = p @ ''Node '' @ d # q \<and> isDigit d)"
proof (induction s)
  case Nil
  then show ?case by simp
next
  case (Cons c cs)
  show ?case
  proof
    assume "matchNodeDigits (c # cs)"
    then consider "matchHere (c # cs)" | "matchNodeDigits cs" by auto
    then show "\<exists>p d q. c # cs = p @ ''Node '' @ d # q \<and> isDigit d"
    proof cases
      case 1
      then obtain d q where "c # cs = [] @ ''Node '' @ d # q" "isDigit d"
        by (auto simp: matchHere_iff)
      then show ?thesis by blast
    next
      case 2
      with Cons.IH obtain p d q where "cs = p @ ''Node '' @ d # q" "isDigit d" by blast
      then have "c # cs = (c # p) @ ''Node '' @ d # q \<and> isDigit d" by simp
      then show ?thesis by blast
    qed
  next
    assume "\<exists>p d q. c # cs = p @ ''Node '' @ d # q \<and> isDigit d"
    then obtain p d q where pq: "c # cs = p @ ''Node '' @ d # q" and d: "isDigit d" by blast
    show "matchNodeDigits (c # cs)"
    proof (cases p)
      case Nil
      with pq d have "matchHere (c # cs)" by (auto simp: matchHere_iff)
      then show ?thesis by simp
    next
      case (Cons a p')
      with pq have "cs = p' @ ''Node '' @ d # q" by simp
      with d Cons.IH have "matchNodeDigits cs" by blast
      then show ?thesis by simp
    qed
  qed
qed

section \<open>Facts about lists\<close>

lemma sum_list_abs_nonpos:
  "(\<And>x. x \<in> set xs \<Longrightarrow> x \<le> 0) \<Longrightarrow> sum_list (map abs xs) = - sum_list (xs :: int list)"
  by (induction xs) auto

lemma length_filter_replicate: "length (filter P (replicate k x)) = (if P x then k else 0)"
  by (induction k) auto

lemma list_ex_replicate: "list_ex P (replicate k x) = (0 < k \<and> P x)"
  by (induction k) auto

section \<open>Decomposition of the score\<close>

lemma calcScore_terms:
  "calcScore ns =
     100 - (if \<not> list_ex isErrorNode ns \<and> length ns > 5 then 20 else 0)
         - (if length ns > 10 then 5 else 0)
         - (if length ns > 20 then 10 else 0)
         - (if length (filter isTrigger ns) = 0 then 10 else 0)
         - (if length (filter isTrigger ns) > 2 then 5 else 0)
         - (if length (filter isHeavy ns) > 3 then 5 else 0)
         - 2 * int (length (filter isDefaultNamed ns))"
  by (simp add: calcScore_def Let_def)

lemma calcScore_deltas: "calcScore ns = 100 + sum_list (deltas ns)"
  by (simp add: calcScore_def deltas_def deductions_def Let_def)

lemma deltas_nonpos: "d \<in> set (deltas ns) \<Longrightarrow> d \<le> 0"
  by (auto simp: deltas_def deductions_def split: if_splits)

lemma calcScore_le_100: "calcScore ns \<le> 100"
  unfolding calcScore_terms by (simp split: if_splits)

lemma finalScore_range: "0 \<le> finalScore ns \<and> finalScore ns \<le> 100"
  by (simp add: finalScore_def)

lemma calcScore_insert:
  assumes e: "isErrorNode n \<longrightarrow> list_ex isErrorNode (xs @ ys)"
      and t: "isTrigger n \<longrightarrow> list_ex isTrigger (xs @ ys)"
  shows "calcScore (xs @ n # ys) \<le> calcScore (xs @ ys) - (if isDefaultNamed n then 2 else 0)"
proof -
  let ?old = "xs @ ys" and ?new = "xs @ n # ys"
  define a where "a ms = (if \<not> list_ex isErrorNode ms \<and> length ms > 5 then 20 else 0::int)" for ms
  define b where "b ms = (if length ms > 10 then 5 else 0::int)" for ms :: "Node list"
  define c where "c ms = (if length ms > 20 then 10 else 0::int)" for ms :: "Node list"
  define d where "d ms = (if length (filter isTrigger ms) = 0 then 10 else 0::int)" for ms
  define f where "f ms = (if length (filter isTrigger ms) > 2 then 5 else 0::int)" for ms
  define g where "g ms = (if length (filter isHeavy ms) > 3 then 5 else 0::int)" for ms
  define h where "h ms = 2 * int (length (filter isDefaultNamed ms))" for ms
  have eq: "calcScore ms = 100 - a ms - b ms - c ms - d ms - f ms - g ms - h ms" for ms
    unfolding calcScore_terms a_def b_def c_def d_def f_def g_def h_def ..
  have "list_ex isErrorNode ?new = list_ex isErrorNode ?old"
    using e by (auto simp: list_ex_iff)
  then have 1: "a ?old \<le> a ?new" by (simp add: a_def)
  have 2: "b ?old \<le> b ?new" by (simp add: b_def)
  have 3: "c ?old \<le> c ?new" by (simp add: c_def)
  have "filter isTrigger ?old = [] \<Longrightarrow> filter isTrigger ?new = []"
    using t by (auto simp: list_ex_iff filter_empty_conv)
  then have 4: "d ?old \<le> d ?new" by (simp add: d_def)
  have 5: "f ?old \<le> f ?new" by (simp add: f_def)
  have 6: "g ?old \<le> g ?new" by (simp add: g_def)
  have 7: "h ?new = h ?old + (if isDefaultNamed n then 2 else 0)" by (simp add: h_def)
  show ?thesis
    unfolding eq using 1 2 3 4 5 6 7 by linarith
qed

lemma calcScore_rename:
  "calcScore ns = calcScore (map (\<lambda>n. n\<lparr>name := []\<rparr>) ns) - 2 * int (length (filter isDefaultNamed ns))"
proof -
  let ?r = "\<lambda>n. n\<lparr>name := []\<rparr>"
  have e: "isErrorNode \<circ> ?r = isErrorNode" by (auto simp: isErrorNode_def)
  have t: "isTrigger \<circ> ?r = isTrigger" by (auto simp: isTrigger_def)
  have h: "isHeavy \<circ> ?r = isHeavy" by (auto simp: isHeavy_def)
  have d: "isDefaultNamed \<circ> ?r = (\<lambda>n. False)" by (auto simp: isDefaultNamed_def)
  show ?thesis
    unfolding calcScore_terms by (simp add: list_ex_iff filter_map e t h d image_iff
        isErrorNode_def)
qed

section \<open>Only names and types are read\<close>

lemma filter_length_cong:
  assumes "map f xs = map f ys" and "\<And>a b. f a = f b \<Longrightarrow> P a = P b"
  shows "length (filter P xs) = length (filter P ys)"
  using assms(1)
proof (induction xs arbitrary: ys)
  case Nil
  then show ?case by simp
next
  case (Cons x xs)
  then obtain y ys' where ys: "ys = y # ys'" and xy: "f x = f y" and r: "map f xs = map f ys'"
    by (cases ys) auto
  from xy have "P x = P y" by (rule assms(2))
  with Cons.IH [OF r] ys show ?case by simp
qed

lemma list_ex_cong_map:
  assumes "map f xs = map f ys" and "\<And>a b. f a = f b \<Longrightarrow> P a = P b"
  shows "list_ex P xs = list_ex P ys"
proof -
  have "length (filter P xs) = length (filter P ys)"
    using assms by (rule filter_length_cong)
  then have "(filter P xs = []) = (filter P ys = [])" by (metis length_0_conv)
  then show ?thesis unfolding list_ex_iff filter_empty_conv by blast
qed

lemma calcScore_cong:
  assumes m: "map (\<lambda>n. (name n, type n)) xs = map (\<lambda>n. (name n, type n)) ys"
  shows "calcScore xs = calcScore ys"
proof -
  have l: "length xs = length ys" using m by (rule map_eq_imp_length_eq)
  have e: "list_ex isErrorNode xs = list_ex isErrorNode ys"
    using m by (rule list_ex_cong_map) (simp add: isErrorNode_def)
  have t: "length (filter isTrigger xs) = length (filter isTrigger ys)"
    using m by (rule filter_length_cong) (simp add: isTrigger_def)
  have h: "length (filter isHeavy xs) = length (filter isHeavy ys)"
    using m by (rule filter_length_cong) (simp add: isHeavy_def)
  have d: "length (filter isDefaultNamed xs) = length (filter isDefaultNamed ys)"
    using m by (rule filter_length_cong) (simp add: isDefaultNamed_def)
  show ?thesis unfolding calcScore_terms l e t h d ..
qed

section \<open>Nodes with both fields present\<close>

lemma some_js_toJs: "some_js isErrorNodeJs (map toJs ns) = Inr (list_ex isErrorNode ns)"
  by (induction ns) (simp_all add: isErrorNodeJs_def isErrorNode_def toJs_def)

lemma filter_js_trigger: "filter_js isTriggerJs (map toJs ns) = Inr (map toJs (filter isTrigger ns))"
  by (induction ns) (simp_all add: isTriggerJs_def isTrigger_def toJs_def)

lemma filter_js_heavy: "filter_js isHeavyJs (map toJs ns) = Inr (map toJs (filter isHeavy ns))"
  by (induction ns) (simp_all add: isHeavyJs_def isHeavy_def toJs_def)

lemma filter_js_named:
  "filter_js isDefaultNamedJs (map toJs ns) = Inr (map toJs (filter isDefaultNamed ns))"
  by (induction ns) (simp_all add: isDefaultNamedJs_def isDefaultNamed_def toJs_def)

lemma calcScoreJs_toJs: "calcScoreJs (map toJs ns) = Inr (calcScore ns)"
  by (simp add: calcScoreJs_def calcScore_def thenE_def Let_def some_js_toJs filter_js_trigger
      filter_js_heavy filter_js_named)

lemma finalScoreJs_toJs: "finalScoreJs (map toJs ns) = Inr (finalScore ns)"
  by (simp add: finalScoreJs_def finalScore_def thenE_def calcScoreJs_toJs)

lemma filter_js_type_missing:
  assumes "\<And>n. js_type n = None \<Longrightarrow> p n = Inl TypeError"
      and "\<exists>n\<in>set ns. js_type n = None"
  shows "\<exists>e. filter_js p ns = Inl e"
  using assms(2)
proof (induction ns)
  case Nil
  then show ?case by simp
next
  case (Cons n ns)
  show ?case
  proof (cases "js_type n")
    case None
    then show ?thesis by (simp add: assms(1))
  next
    case (Some t)
    with Cons.prems have "\<exists>m\<in>set ns. js_type m = None" by auto
    with Cons.IH obtain e where "filter_js p ns = Inl e" by blast
    then show ?thesis by (simp split: sum.splits)
  qed
qed

lemma filter_js_name_missing:
  assumes "\<exists>n\<in>set ns. js_name n = None"
  shows "\<exists>e. filter_js isDefaultNamedJs ns = Inl e"
  using assms
proof (induction ns)
  case Nil
  then show ?case by simp
next
  case (Cons n ns)
  show ?case
  proof (cases "js_name n")
    case None
    then show ?thesis by (simp add: isDefaultNamedJs_def)
  next
    case (Some t)
    with Cons.prems have "\<exists>m\<in>set ns. js_name m = None" by auto
    with Cons.IH obtain e where "filter_js isDefaultNamedJs ns = Inl e" by blast
    then show ?thesis by (simp split: sum.splits)
  qed
qed

lemma calcScoreJs_missing:
  assumes "\<exists>n\<in>set ns. js_name n = None \<or> js_type n = None"
  shows "calcScoreJs ns = Inl TypeError"
proof -
  have only: "e = TypeError" for e :: error by (cases e) simp
  from assms consider "\<exists>n\<in>set ns. js_type n = None" | "\<exists>n\<in>set ns. js_name n = None"
    by blast
  then obtain e where "calcScoreJs ns = Inl e"
  proof cases
    case 1
    then obtain e where "filter_js isTriggerJs ns = Inl e"
      using filter_js_type_missing [of isTriggerJs ns] by (auto simp: isTriggerJs_def)
    then have "\<exists>e. calcScoreJs ns = Inl e"
      by (cases "some_js isErrorNodeJs ns") (simp_all add: calcScoreJs_def thenE_def Let_def)
    with that show ?thesis by blast
  next
    case 2
    then obtain e where "filter_js isDefaultNamedJs ns = Inl e"
      using filter_js_name_missing by blast
    then have "\<exists>e. calcScoreJs ns = Inl e"
      by (cases "some_js isErrorNodeJs ns"; cases "filter_js isTriggerJs ns";
          cases "filter_js isHeavyJs ns") (simp_all add: calcScoreJs_def thenE_def Let_def)
    with that show ?thesis by blast
  qed
  with only [of e] show ?thesis by simp
qed

section \<open>The predicates on the literal nodes\<close>

lemma startNode_facts:
  "\<not> isErrorNode startNode" "isTrigger startNode" "\<not> isHeavy startNode"
  "\<not> isDefaultNamed startNode"
  by code_simp+

lemma stepNode_facts:
  "\<not> isErrorNode stepNode" "\<not> isTrigger stepNode" "\<not> isHeavy stepNode"
  "\<not> isDefaultNamed stepNode"
  by code_simp+

lemma scriptNode_facts:
  "\<not> isErrorNode scriptNode" "\<not> isTrigger scriptNode" "isHeavy scriptNode"
  "\<not> isDefaultNamed scriptNode"
  by code_simp+

lemma numberedNode_facts:
  "\<not> isErrorNode numberedNode" "\<not> isTrigger numberedNode" "\<not> isHeavy numberedNode"
  "isDefaultNamed numberedNode"
  by code_simp+

lemma numberedHook_facts:
  "\<not> isErrorNode numberedHook" "isTrigger numberedHook" "\<not> isHeavy numberedHook"
  "isDefaultNamed numberedHook"
  by code_simp+

lemma hookNode_facts:
  "\<not> isErrorNode hookNode" "isTrigger hookNode" "isHeavy hookNode"
  "\<not> isDefaultNamed hookNode"
  by code_simp+

section \<open>The claims\<close>

subsection \<open>C1: what the analysis delivers\<close>

text \<open>
  C1, as stated, asks that every score come with the findings that produced it. The
  component stores the number alone: the empty workflow (no trigger, -10) and a workflow
  of four webhook code nodes (too many triggers, -5, and excess custom code, -5) trigger
  different rules, and apart from the workflow cell itself the component ends in the same
  state for both.
\<close>

theorem findings_not_delivered:
  "(handleAnalyze sampleReply (initialState\<lparr>workflow := Some emptyWorkflow\<rparr>))\<lparr>workflow := None\<rparr>
     = (handleAnalyze sampleReply (initialState\<lparr>workflow := Some hookWorkflow\<rparr>))\<lparr>workflow := None\<rparr>
   \<and> deductions (nodes emptyWorkflow) = [(NoTrigger, - 10)]
   \<and> deductions (nodes hookWorkflow) = [(TooManyTriggers, - 5), (ExcessCustomCode, - 5)]"
proof -
  have 1: "finalScore (nodes emptyWorkflow) = 90"
    by (simp add: emptyWorkflow_def finalScore_def calcScore_terms)
  have 2: "finalScore (nodes hookWorkflow) = 90"
    by (simp add: hookWorkflow_def finalScore_def calcScore_terms list_ex_replicate
        length_filter_replicate hookNode_facts)
  have 3: "deductions (nodes emptyWorkflow) = [(NoTrigger, - 10)]"
    by (simp add: emptyWorkflow_def deductions_def)
  have 4: "deductions (nodes hookWorkflow) = [(TooManyTriggers, - 5), (ExcessCustomCode, - 5)]"
    by (simp add: hookWorkflow_def deductions_def list_ex_replicate length_filter_replicate
        hookNode_facts)
  have "(handleAnalyze sampleReply (initialState\<lparr>workflow := Some emptyWorkflow\<rparr>))\<lparr>workflow := None\<rparr>
     = (handleAnalyze sampleReply (initialState\<lparr>workflow := Some hookWorkflow\<rparr>))\<lparr>workflow := None\<rparr>"
    by (simp add: handleAnalyze_def Let_def 1 2)
  with 3 4 show ?thesis by blast
qed

text \<open>
  C1, amended. For every state that holds a workflow, the analysis ends with the reply of
  the service as the analysis, the loading flag cleared and the health score set to the
  clamped score of the workflow's nodes, an integer between 0 and 100; nothing else
  changes, and no finding is stored.
\<close>

theorem analysis_delivers_score_only:
  assumes "workflow st = Some w"
  shows "handleAnalyze res st =
           st\<lparr>loading := False,
              analysis := Some \<lparr>analysis_text = res_text res, analysis_model = modelLabel res\<rparr>,
              healthScore := finalScore (nodes w)\<rparr>
         \<and> 0 \<le> healthScore (handleAnalyze res st)
         \<and> healthScore (handleAnalyze res st) \<le> 100"
  using assms by (simp add: handleAnalyze_def Let_def finalScore_range)

theorem analysis_delivers_score_only_witness:
  "workflow (initialState\<lparr>workflow := Some hookWorkflow\<rparr>) = Some hookWorkflow
   \<and> handleAnalyze sampleReply (initialState\<lparr>workflow := Some hookWorkflow\<rparr>) =
       \<lparr>activeTab = Visual, workflow = Some hookWorkflow, loading = False,
        analysis = Some \<lparr>analysis_text = ''- Add error handling node.'',
                         analysis_model = ''AI Model''\<rparr>,
        healthScore = 90\<rparr>"
proof -
  have h: "workflow (initialState\<lparr>workflow := Some hookWorkflow\<rparr>) = Some hookWorkflow"
    by simp
  have s: "finalScore (nodes hookWorkflow) = 90"
    by (simp add: hookWorkflow_def finalScore_def calcScore_terms list_ex_replicate
        length_filter_replicate hookNode_facts)
  from analysis_delivers_score_only [OF h, of sampleReply] s h show ?thesis
    by (simp add: initialState_def sampleReply_def modelLabel_def)
qed

subsection \<open>C2: the missing-error-handling rule\<close>

text \<open>
  C2. With more than five nodes, the claim lets a type containing \<^verbatim>\<open>Catch\<close> in any
  casing count as error handling. The source lower-cases the type before it looks for
  \<^verbatim>\<open>error\<close> but not before it looks for \<^verbatim>\<open>catch\<close>: among six nodes, one of
  type \<^verbatim>\<open>n8n-nodes-base.tryCatch\<close> leaves the deduction of 20 in place (score 80),
  the same type written \<^verbatim>\<open>n8n-nodes-base.trycatch\<close> removes it (score 100), and
  so does \<^verbatim>\<open>n8n-nodes-base.onError\<close>.
\<close>

theorem catch_is_matched_case_sensitively:
  "finalScore (sixNodes ''n8n-nodes-base.tryCatch'') = 80
   \<and> finalScore (sixNodes ''n8n-nodes-base.trycatch'') = 100
   \<and> finalScore (sixNodes ''n8n-nodes-base.onError'') = 100"
proof -
  have 1: "\<not> isErrorNode (mkNode ''Guard'' ''n8n-nodes-base.tryCatch'')"
    "\<not> isTrigger (mkNode ''Guard'' ''n8n-nodes-base.tryCatch'')"
    "\<not> isHeavy (mkNode ''Guard'' ''n8n-nodes-base.tryCatch'')"
    "\<not> isDefaultNamed (mkNode ''Guard'' ''n8n-nodes-base.tryCatch'')"
    by code_simp+
  have 2: "isErrorNode (mkNode ''Guard'' ''n8n-nodes-base.trycatch'')"
    "\<not> isTrigger (mkNode ''Guard'' ''n8n-nodes-base.trycatch'')"
    "\<not> isHeavy (mkNode ''Guard'' ''n8n-nodes-base.trycatch'')"
    "\<not> isDefaultNamed (mkNode ''Guard'' ''n8n-nodes-base.trycatch'')"
    by code_simp+
  have 3: "isErrorNode (mkNode ''Guard'' ''n8n-nodes-base.onError'')"
    "\<not> isTrigger (mkNode ''Guard'' ''n8n-nodes-base.onError'')"
    "\<not> isHeavy (mkNode ''Guard'' ''n8n-nodes-base.onError'')"
    "\<not> isDefaultNamed (mkNode ''Guard'' ''n8n-nodes-base.onError'')"
    by code_simp+
  show ?thesis
    by (simp add: sixNodes_def finalScore_def calcScore_terms 1 2 3 startNode_facts stepNode_facts)
qed

subsection \<open>C3: the default-naming deduction\<close>

text \<open>
  C3, as stated, counts the name \<^verbatim>\<open>Node1\<close> as a default name. The expression of the
  source asks for a space before the digits: a single webhook node named
  \<^verbatim>\<open>Node1\<close> is not default-named and scores the same 100 as under any other name.
\<close>

theorem node1_is_not_a_default_name:
  "\<not> isDefaultNamed (mkNode ''Node1'' ''n8n-nodes-base.webhook'')
   \<and> calcScore [mkNode ''Node1'' ''n8n-nodes-base.webhook''] = 100
   \<and> calcScore [mkNode ''Start'' ''n8n-nodes-base.webhook''] = 100"
proof -
  have 1: "\<not> isDefaultNamed (mkNode ''Node1'' ''n8n-nodes-base.webhook'')"
    "\<not> isErrorNode (mkNode ''Node1'' ''n8n-nodes-base.webhook'')"
    "isTrigger (mkNode ''Node1'' ''n8n-nodes-base.webhook'')"
    "\<not> isHeavy (mkNode ''Node1'' ''n8n-nodes-base.webhook'')"
    by code_simp+
  show ?thesis
    using startNode_facts by (simp add: calcScore_terms 1 startNode_def)
qed

text \<open>
  C3, amended. The naming rule subtracts exactly 2 points for each node whose name matches
  \<^verbatim>\<open>Node\<close>, a space and one or more digits, with no cap on this term: the score
  before the clamp is the score of the same workflow with every name blanked, minus twice
  the number of such nodes. A node named \<^verbatim>\<open>Node 7\<close> is one of them, whatever its
  type.
\<close>

theorem default_naming_deduction:
  "calcScore ns =
     calcScore (map (\<lambda>n. n\<lparr>name := []\<rparr>) ns) - 2 * int (length (filter isDefaultNamed ns))
   \<and> finalScore ns =
     max 0 (min 100 (calcScore (map (\<lambda>n. n\<lparr>name := []\<rparr>) ns)
                      - 2 * int (length (filter isDefaultNamed ns))))
   \<and> isDefaultNamed (mkNode ''Node 7'' ty)"
proof -
  have "matchNodeDigits ''Node 7''" by code_simp
  then have "isDefaultNamed (mkNode ''Node 7'' ty)" by (simp add: isDefaultNamed_def mkNode_def)
  with calcScore_rename [of ns] show ?thesis by (simp add: finalScore_def)
qed

subsection \<open>C4: adding a default-named node\<close>

text \<open>
  C4, as stated, lets the added node have any type. Adding a default-named webhook node
  to the empty workflow removes the no-trigger deduction: the score rises from 90 to 98.
\<close>

theorem first_trigger_raises_score:
  "isDefaultNamed numberedHook
   \<and> finalScore [] = 90
   \<and> finalScore ([] @ numberedHook # []) = 98"
  by (simp add: finalScore_def calcScore_terms numberedHook_facts)

text \<open>
  C4, amended. Adding one default-named node anywhere in the node list, everything else
  held fixed, never increases the score, and lowers it unless it is already 0, provided
  the added node is neither the first error-handling node nor the first trigger or
  webhook node of the workflow.
\<close>

theorem adding_default_named_node:
  assumes "isDefaultNamed n"
      and "isErrorNode n \<longrightarrow> list_ex isErrorNode (xs @ ys)"
      and "isTrigger n \<longrightarrow> list_ex isTrigger (xs @ ys)"
  shows "finalScore (xs @ n # ys) \<le> finalScore (xs @ ys)
         \<and> (0 < finalScore (xs @ ys) \<longrightarrow> finalScore (xs @ n # ys) < finalScore (xs @ ys))"
proof -
  from calcScore_insert [OF assms(2) assms(3)] assms(1)
  have "calcScore (xs @ n # ys) \<le> calcScore (xs @ ys) - 2" by simp
  moreover have "calcScore (xs @ ys) \<le> 100" by (rule calcScore_le_100)
  ultimately show ?thesis unfolding finalScore_def by linarith
qed

theorem adding_default_named_node_witness:
  "isDefaultNamed numberedHook
   \<and> \<not> isErrorNode numberedHook
   \<and> list_ex isTrigger ([startNode] @ [stepNode])
   \<and> finalScore ([startNode] @ [stepNode]) = 100
   \<and> finalScore ([startNode] @ numberedHook # [stepNode]) < 100"
proof -
  have 1: "isDefaultNamed numberedHook" by (rule numberedHook_facts)
  have 2: "\<not> isErrorNode numberedHook" by (rule numberedHook_facts)
  have 3: "list_ex isTrigger ([startNode] @ [stepNode])" by (simp add: startNode_facts)
  have 4: "finalScore ([startNode] @ [stepNode]) = 100"
    by (simp add: finalScore_def calcScore_terms startNode_facts stepNode_facts)
  from adding_default_named_node [of numberedHook "[startNode]" "[stepNode]"] 1 2 3 4
  have "finalScore ([startNode] @ numberedHook # [stepNode]) < 100" by simp
  with 1 2 3 4 show ?thesis by blast
qed

subsection \<open>C5: one clamp after all rules\<close>

text \<open>
  C5. The final score is the base 100 plus the signed deltas of the triggered rules (that
  is, 100 minus the points they deduct), clamped to the range 0 to 100 once, after all
  rules; deltas summing below -100 give exactly 0, and a workflow that triggers no rule
  scores exactly 100.
\<close>

theorem final_score_is_clamped_sum:
  "finalScore ns = max 0 (min 100 (100 + sum_list (deltas ns)))
   \<and> finalScore ns = max 0 (min 100 (100 - sum_list (map abs (deltas ns))))
   \<and> (sum_list (deltas ns) < - 100 \<longrightarrow> finalScore ns = 0)
   \<and> (deltas ns = [] \<longrightarrow> finalScore ns = 100)"
proof -
  have "sum_list (map abs (deltas ns)) = - sum_list (deltas ns)"
    by (rule sum_list_abs_nonpos) (rule deltas_nonpos)
  then show ?thesis
    by (auto simp add: finalScore_def calcScore_deltas)
qed

theorem final_score_is_clamped_sum_witness:
  "sum_list (deltas (replicate 60 numberedNode)) < - 100
   \<and> finalScore (replicate 60 numberedNode) = 0
   \<and> deltas [startNode] = []
   \<and> finalScore [startNode] = 100"
proof -
  have 1: "sum_list (deltas (replicate 60 numberedNode)) < - 100"
    by (simp add: deltas_def deductions_def list_ex_replicate length_filter_replicate
        numberedNode_facts)
  have 2: "deltas [startNode] = []"
    by (simp add: deltas_def deductions_def startNode_facts)
  from final_score_is_clamped_sum [of "replicate 60 numberedNode"] 1
  have 3: "finalScore (replicate 60 numberedNode) = 0" by blast
  from final_score_is_clamped_sum [of "[startNode]"] 2
  have 4: "finalScore [startNode] = 100" by blast
  from 1 2 3 4 show ?thesis by blast
qed

subsection \<open>C6: small workflows without a trigger\<close>

text \<open>
  C6. A workflow of at most five nodes with no trigger or webhook node, no default-named
  node and at most three code or function nodes scores exactly 90; the empty node list is
  such a workflow and scores 90.
\<close>

theorem small_triggerless_workflow_scores_90:
  "(length ns \<le> 5 \<and> \<not> list_ex isTrigger ns \<and> \<not> list_ex isDefaultNamed ns
      \<and> length (filter isHeavy ns) \<le> 3 \<longrightarrow> finalScore ns = 90)
   \<and> finalScore [] = 90"
  by (auto simp add: finalScore_def calcScore_terms list_ex_iff filter_empty_conv)

theorem small_triggerless_workflow_scores_90_witness:
  "length [stepNode, scriptNode] \<le> 5
   \<and> \<not> list_ex isTrigger [stepNode, scriptNode]
   \<and> \<not> list_ex isDefaultNamed [stepNode, scriptNode]
   \<and> length (filter isHeavy [stepNode, scriptNode]) \<le> 3
   \<and> finalScore [stepNode, scriptNode] = 90"
proof -
  have 1: "length [stepNode, scriptNode] \<le> 5" by simp
  have 2: "\<not> list_ex isTrigger [stepNode, scriptNode]"
    by (simp add: stepNode_facts scriptNode_facts)
  have 3: "\<not> list_ex isDefaultNamed [stepNode, scriptNode]"
    by (simp add: stepNode_facts scriptNode_facts)
  have 4: "length (filter isHeavy [stepNode, scriptNode]) \<le> 3" by simp
  from small_triggerless_workflow_scores_90 [of "[stepNode, scriptNode]"] 1 2 3 4
  have "finalScore [stepNode, scriptNode] = 90" by blast
  with 1 2 3 4 show ?thesis by blast
qed

subsection \<open>C7: nodes without a name or a type\<close>

text \<open>
  C7, as stated, has a missing field replaced by the empty string. The source calls a
  string method on the missing value: a workflow whose second node lacks its type ends in
  a \<^verbatim>\<open>TypeError\<close>, while the same workflow with the empty string in that place
  scores 100.
\<close>

theorem missing_type_aborts_scoring:
  "finalScoreJs [toJs startNode, untypedNode] = Inl TypeError
   \<and> finalScoreJs [toJs startNode, untypedNode\<lparr>js_type := Some []\<rparr>] = Inr 100"
  by code_simp

text \<open>
  C7, amended. For every workflow containing a node whose name or type is missing,
  scoring throws a \<^verbatim>\<open>TypeError\<close> and produces no score; when every node carries
  both fields, scoring completes with the clamped score.
\<close>

theorem missing_field_throws:
  "((\<exists>n\<in>set js. js_name n = None \<or> js_type n = None) \<longrightarrow> finalScoreJs js = Inl TypeError)
   \<and> finalScoreJs (map toJs ns) = Inr (finalScore ns)"
  by (simp add: finalScoreJs_toJs) (simp add: finalScoreJs_def thenE_def calcScoreJs_missing)

theorem missing_field_throws_witness:
  "unnamedNode \<in> set [toJs startNode, toJs stepNode, unnamedNode]
   \<and> js_name unnamedNode = None
   \<and> finalScoreJs [toJs startNode, toJs stepNode, unnamedNode] = Inl TypeError
   \<and> finalScoreJs (map toJs [startNode, stepNode]) = Inr 100"
proof -
  have 1: "unnamedNode \<in> set [toJs startNode, toJs stepNode, unnamedNode]" by simp
  have 2: "js_name unnamedNode = None" by (simp add: unnamedNode_def)
  have 3: "finalScore [startNode, stepNode] = 100"
    by (simp add: finalScore_def calcScore_terms startNode_facts stepNode_facts)
  note t = missing_field_throws [of "[toJs startNode, toJs stepNode, unnamedNode]" "[startNode, stepNode]"]
  from t 1 2 have 4: "finalScoreJs [toJs startNode, toJs stepNode, unnamedNode] = Inl TypeError"
    by blast
  from t 3 have 5: "finalScoreJs (map toJs [startNode, stepNode]) = Inr 100" by simp
  from 1 2 4 5 show ?thesis by blast
qed

subsection \<open>C8: the connections are never read\<close>

text \<open>
  C8. Two workflows whose node lists agree on every name and type get the same health
  score, whatever their connections, their own names, the positions of their nodes, the
  reply of the service and the rest of the component state.
\<close>

theorem score_ignores_connections:
  assumes "map (\<lambda>n. (name n, type n)) (nodes w1) = map (\<lambda>n. (name n, type n)) (nodes w2)"
  shows "healthScore (handleAnalyze res1 (st1\<lparr>workflow := Some w1\<rparr>))
           = healthScore (handleAnalyze res2 (st2\<lparr>workflow := Some w2\<rparr>))"
  using calcScore_cong [OF assms] by (simp add: handleAnalyze_def Let_def finalScore_def)

theorem score_ignores_connections_witness:
  "map (\<lambda>n. (name n, type n)) (nodes plainExport) = map (\<lambda>n. (name n, type n)) (nodes wiredExport)
   \<and> connections plainExport \<noteq> connections wiredExport
   \<and> healthScore (handleAnalyze sampleReply (initialState\<lparr>workflow := Some plainExport\<rparr>))
       = healthScore (handleAnalyze sampleReply (initialState\<lparr>workflow := Some wiredExport\<rparr>))"
proof -
  have 1: "map (\<lambda>n. (name n, type n)) (nodes plainExport)
             = map (\<lambda>n. (name n, type n)) (nodes wiredExport)"
    by (simp add: plainExport_def wiredExport_def)
  have "connections plainExport ''Start'' \<noteq> connections wiredExport ''Start''"
    by (simp add: plainExport_def wiredExport_def)
  then have 2: "connections plainExport \<noteq> connections wiredExport"
    by (rule contrapos_nn) simp
  from score_ignores_connections [OF 1, of sampleReply initialState sampleReply initialState] 1 2
  show ?thesis by blast
qed

subsection \<open>C9: the fixed rules deduct at most 50\<close>

text \<open>
  C9. A workflow without a default-named node scores at least 50: the fixed rules deduct
  at most 20 + 5 + 10 + 10 + 5 points together, because the no-trigger rule and the
  too-many-triggers rule exclude each other.
\<close>

theorem score_at_least_50_without_default_names:
  "\<not> list_ex isDefaultNamed ns \<Longrightarrow> 50 \<le> finalScore ns"
  by (auto simp add: finalScore_def calcScore_terms list_ex_iff filter_empty_conv)

theorem score_at_least_50_without_default_names_witness:
  "\<not> list_ex isDefaultNamed (replicate 17 stepNode @ replicate 4 scriptNode)
   \<and> 50 \<le> finalScore (replicate 17 stepNode @ replicate 4 scriptNode)
   \<and> finalScore (replicate 17 stepNode @ replicate 4 scriptNode) \<le> 50"
proof -
  have 1: "\<not> list_ex isDefaultNamed (replicate 17 stepNode @ replicate 4 scriptNode)"
    by (simp add: list_ex_replicate stepNode_facts scriptNode_facts)
  have 2: "finalScore (replicate 17 stepNode @ replicate 4 scriptNode) \<le> 50"
    by (simp add: finalScore_def calcScore_terms list_ex_replicate length_filter_replicate
        stepNode_facts scriptNode_facts)
  from score_at_least_50_without_default_names [OF 1] 1 2 show ?thesis by blast
qed

subsection \<open>C10: the expression behind the naming rule\<close>

text \<open>
  C10. A node is default-named exactly when its name contains, at any position,
  \<^verbatim>\<open>Node\<close> with this casing, one space and a digit; such a node costs 2 points
  compared with the same node under a blank name, any other node costs nothing.
  \<^verbatim>\<open>MyNode 42 copy\<close> matches, \<^verbatim>\<open>Node1\<close> and \<^verbatim>\<open>node 3\<close> do not.
\<close>

theorem default_name_is_unanchored_match:
  "(isDefaultNamed n \<longleftrightarrow> (\<exists>p d q. name n = p @ ''Node '' @ d # q \<and> isDigit d))
   \<and> calcScore (xs @ n # ys)
       = calcScore (xs @ n\<lparr>name := []\<rparr> # ys) - (if isDefaultNamed n then 2 else 0)
   \<and> matchNodeDigits ''MyNode 42 copy''
   \<and> \<not> matchNodeDigits ''Node1''
   \<and> \<not> matchNodeDigits ''node 3''"
proof -
  have 1: "isDefaultNamed n \<longleftrightarrow> (\<exists>p d q. name n = p @ ''Node '' @ d # q \<and> isDigit d)"
    unfolding isDefaultNamed_def by (rule matchNodeDigits_iff)
  have 2: "calcScore (xs @ n # ys)
       = calcScore (xs @ n\<lparr>name := []\<rparr> # ys) - (if isDefaultNamed n then 2 else 0)"
    by (simp add: calcScore_terms isErrorNode_def isTrigger_def isHeavy_def isDefaultNamed_def)
  have 3: "matchNodeDigits ''MyNode 42 copy''" by code_simp
  have 4: "\<not> matchNodeDigits ''Node1''" by code_simp
  have 5: "\<not> matchNodeDigits ''node 3''" by code_simp
  from 1 2 3 4 5 show ?thesis by blast
qed

end
